theory Spec2Isabelle
  imports Complex_Main
begin

section \<open>ComputeSum: reading a number file and reporting sum and average\<close>

text \<open>
  The program is \<^verbatim>\<open>samples/export/Python/ComputeSum.py\<close>, a Python export of a
  Structorizer diagram. It consists of the subroutine \<^verbatim>\<open>readNumbers\<close> and of
  the main program, which asks for a file name, calls \<^verbatim>\<open>readNumbers\<close> and
  prints the sum and the average of the numbers.

  The embedding passes the state explicitly: a \<open>world\<close> holds the file system, the open
  file handles, the sequence of calls into the file API and the standard output. A raised
  exception is the \<open>Inl\<close> of a sum type, so that every \<^verbatim>\<open>raise\<close> and every
  failing builtin is a branch of the model. The float arithmetic is a parameter of the
  main program. The handler clauses \<^verbatim>\<open>except Exception, error:\<close> are read as
  \<^verbatim>\<open>except Exception as error:\<close>.
\<close>

subsection \<open>Exceptions and printed values\<close>

text \<open>
  \<open>Exception args\<close> is Python's \<^verbatim>\<open>Exception\<close> with an optional message:
  \<^verbatim>\<open>Exception()\<close> is \<open>Exception None\<close>. The other constructors are the
  builtin exceptions that the statements of the program can raise; all of them are
  subclasses of \<^verbatim>\<open>Exception\<close>, so \<^verbatim>\<open>except Exception\<close> catches each.
  An IndexError carries its message, which differs between a store into a list and a read
  from it.
\<close>

datatype exn =
    Exception "string option"
  | IndexError string
  | ValueError
  | IOError
  | ZeroDivisionError
  | OverflowError

text \<open>\<^verbatim>\<open>str(e)\<close> of an exception, which is what \<^verbatim>\<open>print(failure, sep='')\<close> writes.\<close>

fun str :: "exn \<Rightarrow> string" where
  "str (Exception None) = ''''"
| "str (Exception (Some msg)) = msg"
| "str (IndexError msg) = msg"
| "str ValueError = ''invalid literal for int()''"
| "str IOError = ''I/O operation failed''"
| "str ZeroDivisionError = ''float division by zero''"
| "str OverflowError = ''int too large to convert to float''"

text \<open>
  The values of a Python float (binary64): a finite value, given as the rational number it
  is, with \<open>Finite 0\<close> for \<^verbatim>\<open>0.0\<close> and \<open>NegZero\<close> for \<^verbatim>\<open>-0.0\<close>, the two
  infinities, and not-a-number.
\<close>

datatype pyfloat = Finite rat | NegZero | PosInf | NegInf | NaN

text \<open>
  The float arithmetic of the program. The program adds an integer to a float
  (\<^verbatim>\<open>sum + values[k]\<close>) and divides a float by an integer (\<^verbatim>\<open>sum / nValues\<close>).
  Both operations round, and both raise OverflowError for an integer too large for a
  float, so they are not the exact sum and quotient. What they return is left open: they
  are parameters of the main program, and every property below holds for whatever float
  arithmetic is put in. \<open>fadd\<close> is the sum of a float and an integer, \<open>fdiv\<close> is the
  quotient of a float by an integer other than zero.
\<close>

record float_ops =
  fadd :: "pyfloat \<Rightarrow> int \<Rightarrow> exn + pyfloat"
  fdiv :: "pyfloat \<Rightarrow> int \<Rightarrow> exn + pyfloat"

text \<open>
  An arithmetic to run examples with: it adds and divides finite values without rounding.
  Binary64 arithmetic gives the same result wherever the exact result is a binary64 value,
  as for \<open>1 + 2 + 3 + 4 = 10\<close> and \<open>10 / 4 = 2.5\<close>; elsewhere it rounds or raises,
  and this arithmetic is not used there.
\<close>

definition exact :: float_ops where
  "exact =
     \<lparr>fadd = (\<lambda>x v. case x of
                Finite q \<Rightarrow> Inr (Finite (q + of_int v))
              | NegZero \<Rightarrow> Inr (Finite (of_int v))
              | _ \<Rightarrow> Inr x),
      fdiv = (\<lambda>x n. case x of
                Finite q \<Rightarrow> Inr (if q = 0 \<and> n < 0 then NegZero else Finite (q / of_int n))
              | NegZero \<Rightarrow> Inr (if n < 0 then Finite 0 else NegZero)
              | PosInf \<Rightarrow> Inr (if n < 0 then NegInf else PosInf)
              | NegInf \<Rightarrow> Inr (if n < 0 then PosInf else NegInf)
              | NaN \<Rightarrow> Inr NaN)\<rparr>"

text \<open>
  An argument of \<^verbatim>\<open>print\<close> is a string or a float. A float is kept as its value and
  is not turned into its decimal text, so \<open>F (Finite 10)\<close> stands for the printed
  \<^verbatim>\<open>10.0\<close> and \<open>F (Finite 0)\<close> for \<^verbatim>\<open>0.0\<close>.
\<close>

datatype pyval = S string | F pyfloat

datatype out = Prompt string | Line "pyval list"

subsection \<open>The world: files, handles, calls and output\<close>

datatype call = FileOpen string | FileEOF int | FileReadInt int | FileClose int

record world =
  files :: "string \<rightharpoonup> string"
  handles :: "int \<rightharpoonup> string list"
  refusal :: "string \<Rightarrow> nat"
  last_handle :: nat
  calls :: "call list"
  stdout :: "out list"

definition log :: "call \<Rightarrow> world \<Rightarrow> world" where
  "log c w = w\<lparr>calls := calls w @ [c]\<rparr>"

text \<open>\<^verbatim>\<open>print(a, b, sep='')\<close> writes its arguments and a newline: one line of output.\<close>

definition print :: "pyval list \<Rightarrow> world \<Rightarrow> world" where
  "print args w = w\<lparr>stdout := stdout w @ [Line args]\<rparr>"

text \<open>
  The world when the program starts on a file system \<open>fs\<close>: nothing open, nothing
  written. A path that is not in \<open>fs\<close> is refused with the indicator \<open>0\<close>.
\<close>

definition booted :: "(string \<rightharpoonup> string) \<Rightarrow> world" where
  "booted fs =
     \<lparr>files = fs, handles = Map.empty, refusal = (\<lambda>path. 0), last_handle = 0, calls = [],
      stdout = []\<rparr>"

text \<open>
  \<^verbatim>\<open>input(prompt)\<close> writes the prompt and returns the line the user types, which is
  the parameter \<open>answer\<close>.
\<close>

definition input :: "string \<Rightarrow> string \<Rightarrow> world \<Rightarrow> string \<times> world" where
  "input prompt answer w = (answer, w\<lparr>stdout := stdout w @ [Prompt prompt]\<rparr>)"

subsection \<open>The file API\<close>

text \<open>
  Modelled from the spec: the tokens of a number file. The functions
  \<^verbatim>\<open>fileOpen\<close>, \<^verbatim>\<open>fileEOF\<close>, \<^verbatim>\<open>fileReadInt\<close> and
  \<^verbatim>\<open>fileClose\<close> belong to Structorizer's file API, which the exported file calls
  and does not contain. The spec describes the file as integers separated by whitespace or
  newlines, and a token as a whitespace/newline-delimited run of characters parsed as one
  integer.
\<close>

definition is_space :: "char \<Rightarrow> bool" where
  "is_space c = (c = CHR '' '' \<or> c = CHR 0x0A \<or> c = CHR 0x0D \<or> c = CHR 0x09)"

fun tokens_from :: "string \<Rightarrow> string \<Rightarrow> string list" where
  "tokens_from cur [] = (if cur = [] then [] else [cur])"
| "tokens_from cur (c # cs) =
     (if is_space c then (if cur = [] then tokens_from [] cs else cur # tokens_from [] cs)
      else tokens_from (cur @ [c]) cs)"

definition tokens :: "string \<Rightarrow> string list" where
  "tokens s = tokens_from [] s"

text \<open>
  Modelled from the spec: the integer a token is parsed as, \<open>None\<close> for a token that is
  not a decimal integer with an optional sign (the spec's token-to-integer conversion,
  whose failure is a ReadError).
\<close>

definition digit :: "char \<Rightarrow> nat option" where
  "digit c = map_of [(CHR ''0'', 0), (CHR ''1'', 1), (CHR ''2'', 2), (CHR ''3'', 3),
     (CHR ''4'', 4), (CHR ''5'', 5), (CHR ''6'', 6), (CHR ''7'', 7), (CHR ''8'', 8),
     (CHR ''9'', 9)] c"

fun parse_digits :: "nat \<Rightarrow> string \<Rightarrow> nat option" where
  "parse_digits acc [] = Some acc"
| "parse_digits acc (c # cs) =
     (case digit c of None \<Rightarrow> None | Some d \<Rightarrow> parse_digits (10 * acc + d) cs)"

definition parse_nat :: "string \<Rightarrow> nat option" where
  "parse_nat s = (if s = [] then None else parse_digits 0 s)"

definition parse_int :: "string \<Rightarrow> int option" where
  "parse_int s =
     (case s of
        [] \<Rightarrow> None
      | c # cs \<Rightarrow>
          if c = CHR ''-'' then map_option (\<lambda>n. - int n) (parse_nat cs)
          else if c = CHR ''+'' then map_option int (parse_nat cs)
          else map_option int (parse_nat s))"

text \<open>
  Modelled from the spec: \<^verbatim>\<open>fileOpen\<close>, absent from the source. It returns the open
  handle indicator: a positive handle for a file that exists, which then stands for the
  file's unread tokens, and a value \<open>\<le> 0\<close> for a path that cannot be opened. Which
  value \<open>\<le> 0\<close> it is depends on the path and on the world: it is minus the number
  \<open>refusal w filePath\<close>, so that \<open>0\<close> and every negative integer occur.
\<close>

definition fileOpen :: "string \<Rightarrow> world \<Rightarrow> int \<times> world" where
  "fileOpen filePath w =
     (let w = log (FileOpen filePath) w in
      case files w filePath of
        None \<Rightarrow> (- int (refusal w filePath), w)
      | Some content \<Rightarrow>
          (let fileNo = int (Suc (last_handle w)) in
           (fileNo, w\<lparr>handles := (handles w)(fileNo \<mapsto> tokens content),
                       last_handle := Suc (last_handle w)\<rparr>)))"

text \<open>
  Modelled from the spec: \<^verbatim>\<open>fileEOF\<close>, absent from the source. It tells whether
  the end of the resource is reached, that is whether no token is left to read.
\<close>

definition fileEOF :: "int \<Rightarrow> world \<Rightarrow> (exn + bool) \<times> world" where
  "fileEOF fileNo w =
     (let w = log (FileEOF fileNo) w in
      case handles w fileNo of
        None \<Rightarrow> (Inl IOError, w)
      | Some toks \<Rightarrow> (Inr (toks = []), w))"

text \<open>
  Modelled from the spec: \<^verbatim>\<open>fileReadInt\<close>, absent from the source. It consumes the
  next token and returns it as an integer; a token that is not an integer, or the end of
  the resource, raises (the spec's ReadError).
\<close>

definition fileReadInt :: "int \<Rightarrow> world \<Rightarrow> (exn + int) \<times> world" where
  "fileReadInt fileNo w =
     (let w = log (FileReadInt fileNo) w in
      case handles w fileNo of
        None \<Rightarrow> (Inl IOError, w)
      | Some [] \<Rightarrow> (Inl IOError, w)
      | Some (t # ts) \<Rightarrow>
          (let w = w\<lparr>handles := (handles w)(fileNo \<mapsto> ts)\<rparr> in
           case parse_int t of
             None \<Rightarrow> (Inl ValueError, w)
           | Some number \<Rightarrow> (Inr number, w)))"

text \<open>
  Modelled from the spec: \<^verbatim>\<open>fileClose\<close>, absent from the source. It releases the
  handle, which is not open afterwards.
\<close>

definition fileClose :: "int \<Rightarrow> world \<Rightarrow> (exn + unit) \<times> world" where
  "fileClose fileNo w =
     (let w = log (FileClose fileNo) w in
      case handles w fileNo of
        None \<Rightarrow> (Inl IOError, w)
      | Some _ \<Rightarrow> (Inr (), w\<lparr>handles := (handles w)(fileNo := None)\<rparr>))"

subsection \<open>Python lists\<close>

text \<open>
  \<^verbatim>\<open>xs[i] = v\<close> and \<^verbatim>\<open>xs[i]\<close> on a Python list: an index from \<open>0\<close> up to
  the length (excluded) names an element, an index from minus the length up to \<open>-1\<close>
  counts from the end, and every other index raises IndexError. An assignment never makes
  the list longer.
\<close>

definition list_index :: "'a list \<Rightarrow> int \<Rightarrow> nat option" where
  "list_index xs i =
     (if 0 \<le> i \<and> i < int (length xs) then Some (nat i)
      else if - int (length xs) \<le> i \<and> i < 0 then Some (nat (int (length xs) + i))
      else None)"

definition setitem :: "'a list \<Rightarrow> int \<Rightarrow> 'a \<Rightarrow> exn + 'a list" where
  "setitem xs i v =
     (case list_index xs i of
        None \<Rightarrow> Inl (IndexError ''list assignment index out of range'')
      | Some j \<Rightarrow> Inr (xs[j := v]))"

definition getitem :: "'a list \<Rightarrow> int \<Rightarrow> exn + 'a" where
  "getitem xs i =
     (case list_index xs i of
        None \<Rightarrow> Inl (IndexError ''list index out of range'')
      | Some j \<Rightarrow> Inr (xs ! j))"

text \<open>\<^verbatim>\<open>range(start, stop, 1)\<close>: the integers from \<open>start\<close> up to \<open>stop - 1\<close>.\<close>

definition range1 :: "int \<Rightarrow> int \<Rightarrow> int list" where
  "range1 start stop = [start..stop - 1]"

text \<open>
  \<^verbatim>\<open>x / n\<close> with a float \<open>x\<close> and an integer \<open>n\<close>: division by zero raises
  ZeroDivisionError, whatever \<open>x\<close> is; any other division is the float quotient.
\<close>

definition truediv :: "float_ops \<Rightarrow> pyfloat \<Rightarrow> int \<Rightarrow> exn + pyfloat" where
  "truediv fl x n = (if n = 0 then Inl ZeroDivisionError else fdiv fl x n)"

subsection \<open>readNumbers\<close>

text \<open>
  The \<^verbatim>\<open>while\<close> loop of \<^verbatim>\<open>readNumbers\<close>. The condition
  \<^verbatim>\<open>not fileEOF(fileNo) and nNumbers < maxNumbers\<close> calls \<^verbatim>\<open>fileEOF\<close> first,
  in every test. The loop leaves with the count, or with the exception of the statement
  that raised. The list is returned as the loop left it, since the caller's list is
  changed in place.
\<close>

function read_loop ::
  "int \<Rightarrow> int list \<Rightarrow> int \<Rightarrow> int \<Rightarrow> world \<Rightarrow> (exn + int) \<times> int list \<times> world" where
  "read_loop fileNo numbers nNumbers maxNumbers w =
     (case fileEOF fileNo w of
        (Inl e, w) \<Rightarrow> (Inl e, numbers, w)
      | (Inr eof, w) \<Rightarrow>
          if \<not> eof \<and> nNumbers < maxNumbers then
            (case fileReadInt fileNo w of
               (Inl e, w) \<Rightarrow> (Inl e, numbers, w)
             | (Inr number, w) \<Rightarrow>
                 (case setitem numbers nNumbers number of
                    Inl e \<Rightarrow> (Inl e, numbers, w)
                  | Inr numbers \<Rightarrow> read_loop fileNo numbers (nNumbers + 1) maxNumbers w))
          else (Inr nNumbers, numbers, w))"
  by pat_completeness auto
termination
  by (relation "measure (\<lambda>(fileNo, numbers, nNumbers, maxNumbers, w). nat (maxNumbers - nNumbers))")
     auto

text \<open>
  \<^verbatim>\<open>readNumbers(fileName, numbers, maxNumbers)\<close>. The \<^verbatim>\<open>finally\<close> clause
  closes the file after the loop, however the loop left; an exception of the close
  replaces the outcome of the loop. The \<^verbatim>\<open>except\<close> clause turns every exception
  of the inner statement into \<^verbatim>\<open>Exception()\<close>.
\<close>

definition readNumbers ::
  "string \<Rightarrow> int list \<Rightarrow> int \<Rightarrow> world \<Rightarrow> (exn + int) \<times> int list \<times> world" where
  "readNumbers fileName numbers maxNumbers w =
     (let nNumbers = 0;
          (fileNo, w) = fileOpen fileName w
      in if fileNo \<le> 0 then (Inl (Exception (Some ''File could not be opened!'')), numbers, w)
         else
           (let (r, numbers, w) = read_loop fileNo numbers nNumbers maxNumbers w;
                (c, w) = fileClose fileNo w;
                r = (case c of Inl e \<Rightarrow> Inl e | Inr _ \<Rightarrow> r)
            in case r of
                 Inl error \<Rightarrow> (Inl (Exception None), numbers, w)
               | Inr nNumbers \<Rightarrow> (Inr nNumbers, numbers, w)))"

subsection \<open>The main program\<close>

text \<open>
  The \<^verbatim>\<open>for\<close> loop over \<^verbatim>\<open>range(0, nValues-1+1, 1)\<close> that adds up the values.
  In \<^verbatim>\<open>sum = sum + values[k]\<close> the element is read first, then added.
\<close>

fun sum_loop :: "float_ops \<Rightarrow> int list \<Rightarrow> int list \<Rightarrow> pyfloat \<Rightarrow> exn + pyfloat" where
  "sum_loop fl vals [] sumv = Inr sumv"
| "sum_loop fl vals (k # ks) sumv =
     (case getitem vals k of
        Inl e \<Rightarrow> Inl e
      | Inr v \<Rightarrow>
          (case fadd fl sumv v of
             Inl e \<Rightarrow> Inl e
           | Inr sumv \<Rightarrow> sum_loop fl vals ks sumv))"

text \<open>
  The last statements of the main program: the summation and the two
  \<^verbatim>\<open>print\<close> calls. The quotient \<^verbatim>\<open>sum / nValues\<close> is an argument of the
  second \<^verbatim>\<open>print\<close> and is computed before anything of that line is written.
\<close>

definition sum_and_average ::
  "float_ops \<Rightarrow> int list \<Rightarrow> int \<Rightarrow> world \<Rightarrow> (exn + unit) \<times> world" where
  "sum_and_average fl vals nValues w =
     (case sum_loop fl vals (range1 0 (nValues - 1 + 1)) (Finite 0) of
        Inl e \<Rightarrow> (Inl e, w)
      | Inr sumv \<Rightarrow>
          (let w = print [S ''sum = '', F sumv] w in
           case truediv fl sumv nValues of
             Inl e \<Rightarrow> (Inl e, w)
           | Inr average \<Rightarrow> (Inr (), print [S ''average = '', F average] w)))"

text \<open>
  The block guarded by \<^verbatim>\<open>if (fileNo > 0)\<close>: the list \<^verbatim>\<open>values\<close> starts
  empty, \<^verbatim>\<open>nValues\<close> starts at \<open>0\<close> and is assigned only when
  \<^verbatim>\<open>readNumbers\<close> returns. The handler prints the failure; the exit that the
  diagram has there is a comment in the export, so the program goes on after the handler.
\<close>

definition main_block :: "float_ops \<Rightarrow> string \<Rightarrow> world \<Rightarrow> (exn + unit) \<times> world" where
  "main_block fl file_name w =
     (let vals = [];
          nValues = 0;
          (r, vals, w) = readNumbers file_name vals 1000 w;
          (nValues, w) = (case r of
                            Inr n \<Rightarrow> (n, w)
                          | Inl failure \<Rightarrow> (nValues, print [S (str failure)] w))
      in sum_and_average fl vals nValues w)"

text \<open>
  The main program, run with the float arithmetic \<open>fl\<close> and the user's answer to the
  prompt. An exception that nothing catches ends the program: the result is \<open>Inl\<close> of
  it, and the world holds what was written until then.
\<close>

definition main :: "float_ops \<Rightarrow> string \<Rightarrow> world \<Rightarrow> (exn + unit) \<times> world" where
  "main fl answer w =
     (let fileNo = (1000 :: int);
          (file_name, w) = input ''Name/path of the number file'' answer w
      in if fileNo > 0 then main_block fl file_name w else (Inr (), w))"

section \<open>Properties\<close>

subsection \<open>What the file API and the read loop change\<close>

text \<open>
  The equation of \<open>read_loop\<close> is unfolded by hand, one iteration at a time, and is
  taken out of the simplifier's rules.
\<close>

declare read_loop.simps [simp del]

lemma fileEOF_frame:
  "fileEOF h w = (r, w') \<Longrightarrow>
     calls w' = calls w @ [FileEOF h] \<and> handles w' = handles w \<and> files w' = files w
     \<and> stdout w' = stdout w \<and> last_handle w' = last_handle w"
  by (auto simp: fileEOF_def log_def Let_def split: option.splits)

lemma fileReadInt_frame:
  "fileReadInt h w = (r, w') \<Longrightarrow>
     calls w' = calls w @ [FileReadInt h] \<and> (\<forall>h'. h' \<noteq> h \<longrightarrow> handles w' h' = handles w h')
     \<and> (handles w h = None) = (handles w' h = None)
     \<and> files w' = files w \<and> stdout w' = stdout w \<and> last_handle w' = last_handle w"
  by (auto simp: fileReadInt_def log_def Let_def split: option.splits list.splits)

lemma read_loop_frame:
  "read_loop h numbers n m w = (r, numbers', w') \<Longrightarrow>
     (\<exists>cs. calls w' = calls w @ cs \<and> cs \<noteq> [] \<and> set cs \<subseteq> {FileEOF h, FileReadInt h})
     \<and> (\<forall>h'. h' \<noteq> h \<longrightarrow> handles w' h' = handles w h')
     \<and> (handles w h = None) = (handles w' h = None)
     \<and> files w' = files w \<and> stdout w' = stdout w \<and> last_handle w' = last_handle w"
proof (induction h numbers n m w arbitrary: r numbers' w' rule: read_loop.induct)
  case (1 fileNo numbers nNumbers maxNumbers w)
  obtain r1 w1 where eof: "fileEOF fileNo w = (r1, w1)" by (cases "fileEOF fileNo w")
  note f1 = fileEOF_frame [OF eof]
  show ?case
  proof (cases r1)
    case (Inl e)
    with eof "1.prems" f1 show ?thesis by (simp add: read_loop.simps [of fileNo numbers])
  next
    case (Inr eof_v)
    show ?thesis
    proof (cases "\<not> eof_v \<and> nNumbers < maxNumbers")
      case False
      with Inr eof "1.prems" f1 show ?thesis
        by (auto simp add: read_loop.simps [of fileNo numbers])
    next
      case True
      obtain r2 w2 where rd: "fileReadInt fileNo w1 = (r2, w2)" by (cases "fileReadInt fileNo w1")
      note f2 = fileReadInt_frame [OF rd]
      show ?thesis
      proof (cases r2)
        case (Inl e)
        with True Inr eof rd "1.prems" f1 f2 show ?thesis
          by (auto simp add: read_loop.simps [of fileNo numbers])
      next
        case number: (Inr number)
        show ?thesis
        proof (cases "setitem numbers nNumbers number")
          case (Inl e)
          with number True Inr eof rd "1.prems" f1 f2 show ?thesis
            by (auto simp add: read_loop.simps [of fileNo numbers])
        next
          case nums: (Inr numbers2)
          have rec: "read_loop fileNo numbers2 (nNumbers + 1) maxNumbers w2 = (r, numbers', w')"
            using nums number True Inr eof rd "1.prems"
            by (simp add: read_loop.simps [of fileNo numbers])
          have ih: "(\<exists>cs. calls w' = calls w2 @ cs \<and> cs \<noteq> [] \<and> set cs \<subseteq> {FileEOF fileNo, FileReadInt fileNo})
     \<and> (\<forall>h'. h' \<noteq> fileNo \<longrightarrow> handles w' h' = handles w2 h')
     \<and> (handles w2 fileNo = None) = (handles w' fileNo = None)
     \<and> files w' = files w2 \<and> stdout w' = stdout w2 \<and> last_handle w' = last_handle w2"
            using "1.IH" [OF eof [symmetric] Inr True rd [symmetric] number nums rec] .
          then obtain cs where cs: "calls w' = calls w2 @ cs" "set cs \<subseteq> {FileEOF fileNo, FileReadInt fileNo}"
            by blast
          have "calls w' = calls w @ (FileEOF fileNo # FileReadInt fileNo # cs)"
            using cs f1 f2 by simp
          moreover have "set (FileEOF fileNo # FileReadInt fileNo # cs) \<subseteq> {FileEOF fileNo, FileReadInt fileNo}"
            using cs by simp
          ultimately have "\<exists>cs. calls w' = calls w @ cs \<and> cs \<noteq> [] \<and> set cs \<subseteq> {FileEOF fileNo, FileReadInt fileNo}"
            by blast
          with ih f1 f2 show ?thesis by simp
        qed
      qed
    qed
  qed
qed

lemma read_loop_count:
  "read_loop h numbers n m w = (Inr k, numbers', w') \<Longrightarrow> n \<le> k \<and> k \<le> max n m"
proof (induction h numbers n m w arbitrary: k numbers' w' rule: read_loop.induct)
  case (1 fileNo numbers nNumbers maxNumbers w)
  from "1.prems" show ?case
    apply (subst (asm) read_loop.simps)
    apply (auto split: prod.splits sum.splits if_splits dest!: "1.IH" [OF sym _ _ sym, rotated -1])
    done
qed

lemma setitem_Nil: "setitem [] i v = Inl (IndexError ''list assignment index out of range'')"
  by (simp add: setitem_def list_index_def)

lemma read_loop_Nil:
  "read_loop h [] n m w = (Inr k, numbers', w') \<Longrightarrow> k = n \<and> numbers' = []"
  by (subst (asm) read_loop.simps) (auto simp: setitem_Nil split: prod.splits sum.splits if_splits)

lemma take_Suc_update: "i < length xs \<Longrightarrow> take (Suc i) (xs[i := x]) = take i xs @ [x]"
  by (simp add: take_Suc_conv_app_nth)

lemma read_loop_reads:
  assumes "handles w h = Some toks" and "map parse_int toks = map Some xs" and "0 \<le> n"
    and "k = min (length xs) (nat (m - n))" and "nat n + k \<le> length numbers"
  shows "read_loop h numbers n m w =
     (Inr (n + int k),
      take (nat n) numbers @ take k xs @ drop (nat n + k) numbers,
      w\<lparr>handles := (handles w)(h \<mapsto> drop k toks),
        calls := calls w @ concat (replicate k [FileEOF h, FileReadInt h]) @ [FileEOF h]\<rparr>)"
  using assms
proof (induction xs arbitrary: toks numbers n w k)
  case Nil
  then have "toks = []" and "k = 0" by simp_all
  with Nil.prems(1) show ?case
    by (subst read_loop.simps) (simp add: fileEOF_def log_def fun_upd_idem)
next
  case (Cons x xs')
  from Cons.prems(2) obtain t ts where toks: "toks = t # ts" and t: "parse_int t = Some x"
    and ts: "map parse_int ts = map Some xs'"
    by (cases toks) auto
  show ?case
  proof (cases "n < m")
    case False
    with Cons.prems have "k = 0" by simp
    with False Cons.prems(1) toks show ?thesis
      by (subst read_loop.simps) (simp add: fileEOF_def log_def fun_upd_idem)
  next
    case True
    define k' where "k' = min (length xs') (nat (m - (n + 1)))"
    have k: "k = Suc k'"
      using True Cons.prems(3,4) unfolding k'_def by (simp add: min_def) linarith
    define w2 where "w2 = w\<lparr>calls := calls w @ [FileEOF h, FileReadInt h],
        handles := (handles w)(h \<mapsto> ts)\<rparr>"
    have lt: "nat n < length numbers" using Cons.prems(5) k by simp
    have set: "setitem numbers n x = Inr (numbers[nat n := x])"
      using lt Cons.prems(3) by (simp add: setitem_def list_index_def)
    have step: "read_loop h numbers n m w = read_loop h (numbers[nat n := x]) (n + 1) m w2"
      using True Cons.prems(1) toks t set
      by (subst read_loop.simps) (simp add: fileEOF_def fileReadInt_def log_def w2_def)
    have h2: "handles w2 h = Some ts" by (simp add: w2_def)
    have n1: "nat (n + 1) = Suc (nat n)" using Cons.prems(3) by simp
    have n0: "0 \<le> n + 1" using Cons.prems(3) by simp
    have len: "nat (n + 1) + k' \<le> length (numbers[nat n := x])"
      using Cons.prems(5) k n1 by simp
    have ih: "read_loop h (numbers[nat n := x]) (n + 1) m w2 =
       (Inr (n + 1 + int k'),
        take (nat (n + 1)) (numbers[nat n := x]) @ take k' xs' @ drop (nat (n + 1) + k') (numbers[nat n := x]),
        w2\<lparr>handles := (handles w2)(h \<mapsto> drop k' ts),
           calls := calls w2 @ concat (replicate k' [FileEOF h, FileReadInt h]) @ [FileEOF h]\<rparr>)"
      by (rule Cons.IH [OF h2 ts n0 k'_def len])
    have l: "take (nat (n + 1)) (numbers[nat n := x]) @ take k' xs' @ drop (nat (n + 1) + k') (numbers[nat n := x])
        = take (nat n) numbers @ take k (x # xs') @ drop (nat n + k) numbers"
      using lt by (simp add: n1 k take_Suc_update)
    have w: "w2\<lparr>handles := (handles w2)(h \<mapsto> drop k' ts),
           calls := calls w2 @ concat (replicate k' [FileEOF h, FileReadInt h]) @ [FileEOF h]\<rparr>
        = w\<lparr>handles := (handles w)(h \<mapsto> drop k toks),
        calls := calls w @ concat (replicate k [FileEOF h, FileReadInt h]) @ [FileEOF h]\<rparr>"
      by (rule world.equality) (simp_all add: w2_def k toks)
    have e: "n + 1 + int k' = n + int k" by (simp add: k)
    show ?thesis
      by (simp only: step ih l w e)
  qed
qed

subsection \<open>Evaluating the program on concrete files\<close>

text \<open>
  Where the main program is run, the float arithmetic \<open>fl\<close> is arbitrary: the runs
  below end before any float is added or divided by a count other than zero.
\<close>

lemmas api_defs = fileOpen_def fileEOF_def fileReadInt_def fileClose_def log_def
lemmas parse_defs = tokens_def is_space_def parse_int_def parse_nat_def digit_def
lemmas list_defs = setitem_def getitem_def list_index_def range1_def
lemmas main_defs = main_def input_def main_block_def sum_and_average_def truediv_def print_def

text \<open>
  C1 (the claim: for a readable file of \<open>N \<le> maxNumbers\<close> integers \<^verbatim>\<open>readNumbers\<close>
  returns \<open>N\<close> and the first \<open>N\<close> entries of the buffer are the file's integers, each
  value appended at the next free position). The code stores with
  \<^verbatim>\<open>numbers[nNumbers] = number\<close>, which does not append: on the empty list that the
  main program passes, the first store raises IndexError, the handler turns it into
  \<^verbatim>\<open>Exception()\<close>, and the buffer stays empty. Here the file holds the single
  integer 5 and the capacity is 1000.
\<close>

theorem readNumbers_five_empty_buffer:
  "fst (readNumbers ''five.txt'' [] 1000 (booted [''five.txt'' \<mapsto> ''5''])) = Inl (Exception None)
   \<and> fst (snd (readNumbers ''five.txt'' [] 1000 (booted [''five.txt'' \<mapsto> ''5'']))) = []"
  by (simp add: readNumbers_def read_loop.simps booted_def api_defs parse_defs list_defs)

text \<open>
  C2 (the claim: when \<^verbatim>\<open>readNumbers\<close> raises, the main program prints the failure
  description and terminates; for a path that cannot be opened nothing is printed beyond
  the failure message). The exit after the handler is a comment in the export, so the
  program goes on: for a missing file it prints the failure message, then the line
  \<^verbatim>\<open>sum = 0.0\<close>, and ends with ZeroDivisionError.
\<close>

theorem main_missing_file:
  "fst (main fl ''missing.txt'' (booted Map.empty)) = Inl ZeroDivisionError
   \<and> stdout (snd (main fl ''missing.txt'' (booted Map.empty))) =
       [Prompt ''Name/path of the number file'',
        Line [S ''File could not be opened!''],
        Line [S ''sum = '', F (Finite 0)]]"
  by (simp add: main_defs readNumbers_def booted_def api_defs list_defs)

text \<open>
  C8 (the claim: for a file with the contents \<^verbatim>\<open>1 2 3 4\<close> the program prints
  \<^verbatim>\<open>sum = 10.0\<close> and \<^verbatim>\<open>average = 2.5\<close>). The program prints an empty line,
  which is the text of the \<^verbatim>\<open>Exception()\<close> that \<^verbatim>\<open>readNumbers\<close> raised
  at its first store into the empty list, then \<^verbatim>\<open>sum = 0.0\<close>, and ends with
  ZeroDivisionError before any average is printed.
\<close>

theorem main_1234:
  "fst (main fl ''numbers.txt'' (booted [''numbers.txt'' \<mapsto> ''1 2 3 4''])) = Inl ZeroDivisionError
   \<and> stdout (snd (main fl ''numbers.txt'' (booted [''numbers.txt'' \<mapsto> ''1 2 3 4'']))) =
       [Prompt ''Name/path of the number file'', Line [S ''''], Line [S ''sum = '', F (Finite 0)]]"
  by (simp add: main_defs readNumbers_def read_loop.simps booted_def api_defs parse_defs list_defs)

text \<open>
  The last statements of the program do print the sum 10.0 and the average 2.5 when they
  are given the list of the four values and the count 4; these sums and this quotient are
  binary64 values, so no rounding takes place.
\<close>

lemma sum_and_average_1234:
  "sum_and_average exact [1, 2, 3, 4] 4 w =
     (Inr (), print [S ''average = '', F (Finite (5 / 2))] (print [S ''sum = '', F (Finite 10)] w))"
  by (simp add: sum_and_average_def truediv_def exact_def list_defs upto.simps)

subsection \<open>Opening and closing\<close>

lemma fileClose_frame:
  "fileClose h w = (c, w') \<Longrightarrow>
     calls w' = calls w @ [FileClose h] \<and> handles w' = (handles w)(h := None)
     \<and> files w' = files w \<and> stdout w' = stdout w \<and> last_handle w' = last_handle w
     \<and> (handles w h \<noteq> None \<longrightarrow> c = Inr ())"
  by (auto simp: fileClose_def log_def Let_def split: option.splits)

lemma fileOpen_frame:
  "fileOpen f w = (h, w1) \<Longrightarrow>
     calls w1 = calls w @ [FileOpen f] \<and> files w1 = files w \<and> stdout w1 = stdout w
     \<and> (h \<le> 0 \<longrightarrow> files w f = None \<and> handles w1 = handles w)
     \<and> (0 < h \<longrightarrow> h = int (Suc (last_handle w))
           \<and> (\<exists>content. files w f = Some content \<and> handles w1 = (handles w)(h \<mapsto> tokens content)))"
  by (auto simp: fileOpen_def log_def Let_def split: option.splits)

lemma readNumbers_not_opened:
  "fst (fileOpen fileName w) \<le> 0 \<Longrightarrow>
     readNumbers fileName numbers maxNumbers w =
       (Inl (Exception (Some ''File could not be opened!'')), numbers, snd (fileOpen fileName w))"
  by (cases "fileOpen fileName w") (simp add: readNumbers_def)

lemma readNumbers_opened:
  assumes "fileOpen fileName w = (fileNo, w1)" and "0 < fileNo"
    and "read_loop fileNo numbers 0 maxNumbers w1 = (r, numbers1, w2)"
    and "fileClose fileNo w2 = (c, w3)"
  shows "readNumbers fileName numbers maxNumbers w =
     (case (case c of Inl e \<Rightarrow> Inl e | Inr u \<Rightarrow> r) of
        Inl error \<Rightarrow> Inl (Exception None) | Inr nNumbers \<Rightarrow> Inr nNumbers,
      numbers1, w3)"
  using assms by (simp add: readNumbers_def split: sum.splits)

lemma readNumbers_opened_world:
  assumes op: "fileOpen fileName w = (fileNo, w1)" and pos: "0 < fileNo"
    and rn: "readNumbers fileName numbers maxNumbers w = (r, numbers', w')"
  shows "handles w' = (handles w)(fileNo := None)"
    and "\<exists>cs. calls w' = calls w @ [FileOpen fileName] @ cs @ [FileClose fileNo]
            \<and> cs \<noteq> [] \<and> set cs \<subseteq> {FileEOF fileNo, FileReadInt fileNo}"
    and "files w' = files w" and "stdout w' = stdout w"
proof -
  obtain r1 numbers1 w2 where lp: "read_loop fileNo numbers 0 maxNumbers w1 = (r1, numbers1, w2)"
    by (cases "read_loop fileNo numbers 0 maxNumbers w1")
  obtain c w3 where cl: "fileClose fileNo w2 = (c, w3)" by (cases "fileClose fileNo w2")
  from readNumbers_opened [OF op pos lp cl] rn have w3: "w' = w3" by simp
  note fo = fileOpen_frame [OF op] and fl = read_loop_frame [OF lp] and fc = fileClose_frame [OF cl]
  show "handles w' = (handles w)(fileNo := None)"
  proof
    fix h'
    show "handles w' h' = ((handles w)(fileNo := None)) h'"
      using fo fl fc pos w3 by (cases "h' = fileNo") auto
  qed
  from fl obtain cs where cs: "calls w2 = calls w1 @ cs" "cs \<noteq> []"
    "set cs \<subseteq> {FileEOF fileNo, FileReadInt fileNo}" by blast
  have "calls w' = calls w @ [FileOpen fileName] @ cs @ [FileClose fileNo]"
    using cs fo fc w3 by simp
  with cs show "\<exists>cs. calls w' = calls w @ [FileOpen fileName] @ cs @ [FileClose fileNo]
            \<and> cs \<noteq> [] \<and> set cs \<subseteq> {FileEOF fileNo, FileReadInt fileNo}" by blast
  show "files w' = files w" using fo fl fc w3 by simp
  show "stdout w' = stdout w" using fo fl fc w3 by simp
qed

text \<open>
  C5: on every exit path of \<^verbatim>\<open>readNumbers\<close> after a successful open, whether the
  loop ended normally or a statement in it raised, the file handle is closed before the
  caller sees the result. For every buffer, capacity and world: the handle is not open in
  the world that \<^verbatim>\<open>readNumbers\<close> leaves, every other handle is as it was, the last
  call into the file API is the close of this handle, and the handle is closed once.
\<close>

theorem readNumbers_closes_handle:
  assumes "fst (fileOpen fileName w) = fileNo" and "0 < fileNo"
    and "snd (snd (readNumbers fileName numbers maxNumbers w)) = w'"
  shows "handles w' fileNo = None \<and> handles w' = (handles w)(fileNo := None)
     \<and> calls w' \<noteq> [] \<and> last (calls w') = FileClose fileNo
     \<and> length (filter (\<lambda>c. c = FileClose fileNo) (drop (length (calls w)) (calls w'))) = 1"
proof -
  obtain w1 where op: "fileOpen fileName w = (fileNo, w1)"
    using assms(1) by (cases "fileOpen fileName w") simp
  obtain r numbers' where rn: "readNumbers fileName numbers maxNumbers w = (r, numbers', w')"
    using assms(3) by (cases "readNumbers fileName numbers maxNumbers w") auto
  note ow = readNumbers_opened_world [OF op assms(2) rn]
  from ow(2) obtain cs where cs: "calls w' = calls w @ [FileOpen fileName] @ cs @ [FileClose fileNo]"
    "set cs \<subseteq> {FileEOF fileNo, FileReadInt fileNo}" by blast
  have "filter (\<lambda>c. c = FileClose fileNo) cs = []"
    using cs(2) by (auto simp: filter_empty_conv)
  then have "length (filter (\<lambda>c. c = FileClose fileNo) (drop (length (calls w)) (calls w'))) = 1"
    using cs(1) by simp
  moreover have "last (calls w') = FileClose fileNo" "calls w' \<noteq> []"
    using cs(1) by simp_all
  ultimately show ?thesis using ow(1) by simp
qed

theorem readNumbers_closes_handle_witness:
  "fst (fileOpen ''n.txt'' (booted [''n.txt'' \<mapsto> ''7 x 9''])) = 1 \<and> (0::int) < 1
   \<and> fst (readNumbers ''n.txt'' [0, 0, 0] 1000 (booted [''n.txt'' \<mapsto> ''7 x 9''])) = Inl (Exception None)
   \<and> handles (snd (snd (readNumbers ''n.txt'' [0, 0, 0] 1000 (booted [''n.txt'' \<mapsto> ''7 x 9''])))) 1 = None
   \<and> last (calls (snd (snd (readNumbers ''n.txt'' [0, 0, 0] 1000 (booted [''n.txt'' \<mapsto> ''7 x 9''])))))
       = FileClose 1"
proof -
  have o: "fst (fileOpen ''n.txt'' (booted [''n.txt'' \<mapsto> ''7 x 9''])) = 1"
    by (simp add: booted_def api_defs)
  have r: "fst (readNumbers ''n.txt'' [0, 0, 0] 1000 (booted [''n.txt'' \<mapsto> ''7 x 9''])) = Inl (Exception None)"
    by (simp add: readNumbers_def read_loop.simps booted_def api_defs parse_defs list_defs)
  from readNumbers_closes_handle [OF o _ refl, of "[0, 0, 0]" 1000] o r show ?thesis by simp
qed

subsection \<open>Failing to open\<close>

lemma fileOpen_refused:
  "files w filePath = None \<Longrightarrow> fst (fileOpen filePath w) = - int (refusal w filePath)"
  by (simp add: fileOpen_def log_def)

text \<open>
  C6: \<^verbatim>\<open>readNumbers\<close> raises its failure without entering the read loop exactly when
  the resource cannot be opened, that is when the value that \<^verbatim>\<open>fileOpen\<close> returns is
  \<open>\<le> 0\<close>. The failure raised before the loop is the one with the message
  \<^verbatim>\<open>File could not be opened!\<close>; it is raised exactly when the handle indicator is
  \<open>\<le> 0\<close>, and exactly then the call of \<^verbatim>\<open>fileOpen\<close> is the only call into the file
  API (the loop starts with a call of \<^verbatim>\<open>fileEOF\<close>), and then the buffer is untouched.
  The indicator of a refused path ranges over \<open>0\<close> and all negative integers.
\<close>

theorem readNumbers_raises_iff_not_opened:
  "(fst (readNumbers fileName numbers maxNumbers w) = Inl (Exception (Some ''File could not be opened!'')))
     = (fst (fileOpen fileName w) \<le> 0)
   \<and> (calls (snd (snd (readNumbers fileName numbers maxNumbers w))) = calls w @ [FileOpen fileName])
     = (fst (fileOpen fileName w) \<le> 0)
   \<and> (if fst (fileOpen fileName w) \<le> 0
      then fst (snd (readNumbers fileName numbers maxNumbers w)) = numbers
      else FileEOF (fst (fileOpen fileName w))
             \<in> set (calls (snd (snd (readNumbers fileName numbers maxNumbers w)))))"
proof (cases "fst (fileOpen fileName w) \<le> 0")
  case True
  obtain h w1 where op: "fileOpen fileName w = (h, w1)" by (cases "fileOpen fileName w")
  from True readNumbers_not_opened [OF True, of numbers maxNumbers] fileOpen_frame [OF op] op
  show ?thesis by simp
next
  case False
  obtain h w1 where op: "fileOpen fileName w = (h, w1)" by (cases "fileOpen fileName w")
  with False have pos: "0 < h" by simp
  obtain r1 numbers1 w2 where lp: "read_loop h numbers 0 maxNumbers w1 = (r1, numbers1, w2)"
    by (cases "read_loop h numbers 0 maxNumbers w1")
  obtain c w3 where cl: "fileClose h w2 = (c, w3)" by (cases "fileClose h w2")
  note rn = readNumbers_opened [OF op pos lp cl]
  have res: "fst (readNumbers fileName numbers maxNumbers w) \<noteq> Inl (Exception (Some ''File could not be opened!''))"
    unfolding rn by (simp split: sum.splits)
  obtain r numbers' w' where rn': "readNumbers fileName numbers maxNumbers w = (r, numbers', w')"
    by (cases "readNumbers fileName numbers maxNumbers w")
  from readNumbers_opened_world(2) [OF op pos rn'] obtain cs
    where cs: "calls w' = calls w @ [FileOpen fileName] @ cs @ [FileClose h]" by blast
  then have tr: "calls w' \<noteq> calls w @ [FileOpen fileName]" by simp
  have "calls w2 = calls w1 @ [FileEOF h] \<or> (\<exists>cs. calls w2 = calls w1 @ FileEOF h # cs)"
    using lp
    by (subst (asm) read_loop.simps)
       (auto simp: fileEOF_def log_def Let_def split: option.splits prod.splits sum.splits if_splits
             dest!: fileReadInt_frame read_loop_frame)
  then have "FileEOF h \<in> set (calls w2)" by auto
  then have "FileEOF h \<in> set (calls w')"
    using rn rn' fileClose_frame [OF cl] by simp
  with False res tr op rn' show ?thesis by simp
qed

text \<open>
  The statement at the three kinds of indicator: \<open>0\<close>, the boundary of the test
  \<^verbatim>\<open>fileNo <= 0\<close>, for a path that is refused with \<open>0\<close>; \<open>-2\<close> for a path that
  is refused with \<open>-2\<close>; and the positive handle \<open>1\<close> of a file that opens, where
  the failure of the open is not raised and the loop is entered.
\<close>

theorem readNumbers_raises_iff_not_opened_witness:
  "fst (fileOpen ''gone.txt'' (booted Map.empty)) = 0
   \<and> fst (readNumbers ''gone.txt'' [] 1000 (booted Map.empty))
       = Inl (Exception (Some ''File could not be opened!''))
   \<and> calls (snd (snd (readNumbers ''gone.txt'' [] 1000 (booted Map.empty)))) = [FileOpen ''gone.txt'']
   \<and> fst (fileOpen ''gone.txt'' ((booted Map.empty)\<lparr>refusal := (\<lambda>path. 2)\<rparr>)) = - 2
   \<and> fst (readNumbers ''gone.txt'' [] 1000 ((booted Map.empty)\<lparr>refusal := (\<lambda>path. 2)\<rparr>))
       = Inl (Exception (Some ''File could not be opened!''))
   \<and> fst (fileOpen ''void.txt'' (booted [''void.txt'' \<mapsto> []])) = 1
   \<and> fst (readNumbers ''void.txt'' [] 1000 (booted [''void.txt'' \<mapsto> []])) = Inr 0
   \<and> FileEOF 1 \<in> set (calls (snd (snd (readNumbers ''void.txt'' [] 1000 (booted [''void.txt'' \<mapsto> []])))))"
proof -
  have o0: "fst (fileOpen ''gone.txt'' (booted Map.empty)) = 0"
    by (simp add: booted_def api_defs)
  have o2: "fst (fileOpen ''gone.txt'' ((booted Map.empty)\<lparr>refusal := (\<lambda>path. 2)\<rparr>)) = - 2"
    by (simp add: booted_def api_defs)
  have o1: "fst (fileOpen ''void.txt'' (booted [''void.txt'' \<mapsto> []])) = 1"
    by (simp add: booted_def api_defs)
  have c0: "calls (booted Map.empty) = []" by (simp add: booted_def)
  have r1: "fst (readNumbers ''void.txt'' [] 1000 (booted [''void.txt'' \<mapsto> []])) = Inr 0"
    by (simp add: readNumbers_def read_loop.simps booted_def api_defs parse_defs)
  from readNumbers_raises_iff_not_opened [of "''gone.txt''" "[]" 1000 "booted Map.empty"]
    readNumbers_raises_iff_not_opened [of "''gone.txt''" "[]" 1000
      "(booted Map.empty)\<lparr>refusal := (\<lambda>path. 2)\<rparr>"]
    readNumbers_raises_iff_not_opened [of "''void.txt''" "[]" 1000 "booted [''void.txt'' \<mapsto> []]"]
    o0 o2 o1 c0 r1
  show ?thesis by simp
qed

subsection \<open>Failures inside the loop\<close>

text \<open>
  A token that is not an integer, met before the capacity is reached and while the buffer
  has room for the integers before it, makes the read of the loop raise ValueError.
\<close>

lemma read_loop_bad_token:
  assumes "handles w h = Some (good @ bad # rest)" and "map parse_int good = map Some xs"
    and "parse_int bad = None" and "0 \<le> n" and "n + int (length xs) < m"
    and "nat n + length xs \<le> length numbers"
  shows "fst (read_loop h numbers n m w) = Inl ValueError"
  using assms
proof (induction xs arbitrary: good numbers n w)
  case Nil
  then have "good = []" by simp
  with Nil.prems show ?case
    by (subst read_loop.simps) (simp add: fileEOF_def fileReadInt_def log_def)
next
  case (Cons x xs')
  from Cons.prems(2) obtain t ts where good: "good = t # ts" and t: "parse_int t = Some x"
    and ts: "map parse_int ts = map Some xs'"
    by (cases good) auto
  define w2 where "w2 = w\<lparr>calls := calls w @ [FileEOF h, FileReadInt h],
        handles := (handles w)(h \<mapsto> ts @ bad # rest)\<rparr>"
  have lt: "nat n < length numbers" and nm: "n < m" using Cons.prems(5,6) by simp_all
  have set: "setitem numbers n x = Inr (numbers[nat n := x])"
    using lt Cons.prems(4) by (simp add: setitem_def list_index_def)
  have step: "read_loop h numbers n m w = read_loop h (numbers[nat n := x]) (n + 1) m w2"
    using nm Cons.prems(1) good t set
    by (subst read_loop.simps) (simp add: fileEOF_def fileReadInt_def log_def w2_def)
  have h2: "handles w2 h = Some (ts @ bad # rest)" by (simp add: w2_def)
  have n0: "0 \<le> n + 1" using Cons.prems(4) by simp
  have m': "n + 1 + int (length xs') < m" using Cons.prems(5) by simp
  have len: "nat (n + 1) + length xs' \<le> length (numbers[nat n := x])"
    using Cons.prems(4,6) by simp
  show ?case
    unfolding step by (rule Cons.IH [OF h2 ts Cons.prems(3) n0 m' len])
qed

text \<open>
  With any buffer, such a token makes the loop leave with an exception: the read of that
  token raises, unless a store before it has raised already.
\<close>

lemma read_loop_raises:
  assumes "handles w h = Some (good @ bad # rest)" and "map parse_int good = map Some xs"
    and "parse_int bad = None" and "n + int (length xs) < m"
  shows "\<exists>e. fst (read_loop h numbers n m w) = Inl e"
  using assms
proof (induction xs arbitrary: good numbers n w)
  case Nil
  then have "good = []" by simp
  with Nil.prems show ?case
    by (subst read_loop.simps) (simp add: fileEOF_def fileReadInt_def log_def)
next
  case (Cons x xs')
  from Cons.prems(2) obtain t ts where good: "good = t # ts" and t: "parse_int t = Some x"
    and ts: "map parse_int ts = map Some xs'"
    by (cases good) auto
  define w2 where "w2 = w\<lparr>calls := calls w @ [FileEOF h, FileReadInt h],
        handles := (handles w)(h \<mapsto> ts @ bad # rest)\<rparr>"
  have nm: "n < m" using Cons.prems(4) by simp
  have h2: "handles w2 h = Some (ts @ bad # rest)" by (simp add: w2_def)
  have m': "n + 1 + int (length xs') < m" using Cons.prems(4) by simp
  show ?case
  proof (cases "setitem numbers n x")
    case (Inl e)
    with nm Cons.prems(1) good t show ?thesis
      by (subst read_loop.simps) (simp add: fileEOF_def fileReadInt_def log_def)
  next
    case (Inr numbers2)
    have step: "read_loop h numbers n m w = read_loop h numbers2 (n + 1) m w2"
      using nm Cons.prems(1) good t Inr
      by (subst read_loop.simps) (simp add: fileEOF_def fileReadInt_def log_def w2_def)
    show ?thesis
      unfolding step by (rule Cons.IH [OF h2 ts Cons.prems(3) m'])
  qed
qed

text \<open>
  Whatever exception the loop leaves with, \<^verbatim>\<open>readNumbers\<close> raises
  \<^verbatim>\<open>Exception()\<close> after the close.
\<close>

lemma readNumbers_loop_raised:
  assumes "fileOpen fileName w = (fileNo, w1)" and "0 < fileNo"
    and "fst (read_loop fileNo numbers 0 maxNumbers w1) = Inl e"
  shows "fst (readNumbers fileName numbers maxNumbers w) = Inl (Exception None)
     \<and> handles (snd (snd (readNumbers fileName numbers maxNumbers w))) fileNo = None
     \<and> last (calls (snd (snd (readNumbers fileName numbers maxNumbers w)))) = FileClose fileNo"
proof -
  obtain numbers1 w2 where lp: "read_loop fileNo numbers 0 maxNumbers w1 = (Inl e, numbers1, w2)"
    using assms(3) by (cases "read_loop fileNo numbers 0 maxNumbers w1") simp
  obtain c w3 where cl: "fileClose fileNo w2 = (c, w3)" by (cases "fileClose fileNo w2")
  have rn: "readNumbers fileName numbers maxNumbers w = (Inl (Exception None), numbers1, w3)"
    using readNumbers_opened [OF assms(1,2) lp cl] by (simp split: sum.splits)
  from fileClose_frame [OF cl] rn show ?thesis by simp
qed

lemma fileOpen_found:
  assumes "files w fileName = Some content"
  shows "fileOpen fileName w = (fst (fileOpen fileName w), snd (fileOpen fileName w))"
    and "0 < fst (fileOpen fileName w)"
    and "handles (snd (fileOpen fileName w)) (fst (fileOpen fileName w)) = Some (tokens content)"
  using assms by (simp_all add: fileOpen_def log_def Let_def)

text \<open>
  C7: if a read operation inside the loop raises an error, \<^verbatim>\<open>readNumbers\<close> raises a
  generic failure after the close has run, and the detail of the original error is gone;
  the caller gets a raised failure and no partial count. The read that raises is the read
  of a token \<open>bad\<close> that is not an integer, which comes after the integers \<open>xs\<close> and
  before the capacity is reached. For every buffer the result is \<^verbatim>\<open>Exception()\<close>,
  not the count of the integers read before, the handle is closed, and the close is the
  last call into the file API. Where the buffer has room for \<open>xs\<close>, the loop left with
  the ValueError of the read, of which \<^verbatim>\<open>Exception()\<close> carries nothing.
\<close>

theorem readNumbers_reraises_generic:
  assumes "files w fileName = Some content" and "tokens content = good @ bad # rest"
    and "map parse_int good = map Some xs" and "parse_int bad = None"
    and "int (length xs) < maxNumbers"
  shows "fst (readNumbers fileName numbers maxNumbers w) = Inl (Exception None)
     \<and> handles (snd (snd (readNumbers fileName numbers maxNumbers w))) (fst (fileOpen fileName w)) = None
     \<and> last (calls (snd (snd (readNumbers fileName numbers maxNumbers w))))
         = FileClose (fst (fileOpen fileName w))
     \<and> (length xs \<le> length numbers \<longrightarrow>
          fst (read_loop (fst (fileOpen fileName w)) numbers 0 maxNumbers (snd (fileOpen fileName w)))
            = Inl ValueError)"
proof -
  note fo = fileOpen_found [OF assms(1)]
  have h: "handles (snd (fileOpen fileName w)) (fst (fileOpen fileName w)) = Some (good @ bad # rest)"
    using fo(3) assms(2) by simp
  have m: "0 + int (length xs) < maxNumbers" using assms(5) by simp
  from read_loop_raises [OF h assms(3,4) m, of numbers] obtain e
    where e: "fst (read_loop (fst (fileOpen fileName w)) numbers 0 maxNumbers (snd (fileOpen fileName w))) = Inl e"
    by blast
  note main = readNumbers_loop_raised [OF fo(1,2) e]
  have "length xs \<le> length numbers \<longrightarrow>
          fst (read_loop (fst (fileOpen fileName w)) numbers 0 maxNumbers (snd (fileOpen fileName w)))
            = Inl ValueError"
  proof
    assume "length xs \<le> length numbers"
    then have len: "nat 0 + length xs \<le> length numbers" by simp
    show "fst (read_loop (fst (fileOpen fileName w)) numbers 0 maxNumbers (snd (fileOpen fileName w)))
            = Inl ValueError"
      by (rule read_loop_bad_token [OF h assms(3,4) order_refl m len])
  qed
  with main show ?thesis by simp
qed

theorem readNumbers_reraises_generic_witness:
  "files (booted [''bad.txt'' \<mapsto> ''3 four 5'']) ''bad.txt'' = Some ''3 four 5''
   \<and> tokens ''3 four 5'' = [''3''] @ ''four'' # [''5'']
   \<and> map parse_int [''3''] = map Some [3] \<and> parse_int ''four'' = None
   \<and> int (length [3 :: int]) < 1000
   \<and> fst (readNumbers ''bad.txt'' [0, 0, 0] 1000 (booted [''bad.txt'' \<mapsto> ''3 four 5'']))
       = Inl (Exception None)
   \<and> last (calls (snd (snd (readNumbers ''bad.txt'' [0, 0, 0] 1000 (booted [''bad.txt'' \<mapsto> ''3 four 5''])))))
       = FileClose 1
   \<and> fst (read_loop 1 [0, 0, 0] 0 1000 (snd (fileOpen ''bad.txt'' (booted [''bad.txt'' \<mapsto> ''3 four 5'']))))
       = Inl ValueError"
proof -
  have f: "files (booted [''bad.txt'' \<mapsto> ''3 four 5'']) ''bad.txt'' = Some ''3 four 5''"
    by (simp add: booted_def)
  have t: "tokens ''3 four 5'' = [''3''] @ ''four'' # [''5'']"
    by (simp add: parse_defs)
  have p: "map parse_int [''3''] = map Some [3]" and b: "parse_int ''four'' = None"
    by (simp_all add: parse_defs)
  have c: "int (length [3 :: int]) < 1000" by simp
  have o: "fst (fileOpen ''bad.txt'' (booted [''bad.txt'' \<mapsto> ''3 four 5''])) = 1"
    by (simp add: booted_def api_defs)
  from readNumbers_reraises_generic [OF f t p b c, of "[0, 0, 0]"] f t p b o
  show ?thesis by simp
qed

subsection \<open>The count and the capacity\<close>

lemma readNumbers_count:
  assumes "fst (readNumbers fileName numbers maxNumbers w) = Inr count"
  shows "0 \<le> count \<and> count \<le> max 0 maxNumbers"
proof -
  obtain h w1 where op: "fileOpen fileName w = (h, w1)" by (cases "fileOpen fileName w")
  have pos: "0 < h"
    using readNumbers_not_opened [of fileName w numbers maxNumbers] assms op by (cases "0 < h") auto
  obtain r1 numbers1 w2 where lp: "read_loop h numbers 0 maxNumbers w1 = (r1, numbers1, w2)"
    by (cases "read_loop h numbers 0 maxNumbers w1")
  obtain c w3 where cl: "fileClose h w2 = (c, w3)" by (cases "fileClose h w2")
  from readNumbers_opened [OF op pos lp cl] assms have "r1 = Inr count"
    by (simp split: sum.splits)
  with read_loop_count [of h numbers 0 maxNumbers w1 count numbers1 w2] lp show ?thesis by simp
qed

text \<open>
  A file of integers and a buffer that already has an entry for each number to be read:
  \<^verbatim>\<open>readNumbers\<close> returns the count, which is the number of integers or the capacity,
  whichever is less, and has overwritten that many entries of the buffer in read order. The
  calls into the file API are the open, one end test and one read for each number, a last
  end test and the close.
\<close>

lemma readNumbers_reads:
  assumes "files w fileName = Some content" and "map parse_int (tokens content) = map Some xs"
    and "k = min (length xs) (nat maxNumbers)" and "k \<le> length numbers"
    and "fileNo = int (Suc (last_handle w))"
  shows "fst (readNumbers fileName numbers maxNumbers w) = Inr (int k)"
    and "fst (snd (readNumbers fileName numbers maxNumbers w)) = take k xs @ drop k numbers"
    and "calls (snd (snd (readNumbers fileName numbers maxNumbers w))) =
           calls w @ [FileOpen fileName] @ concat (replicate k [FileEOF fileNo, FileReadInt fileNo])
             @ [FileEOF fileNo, FileClose fileNo]"
proof -
  define w1 where "w1 = snd (fileOpen fileName w)"
  have op: "fileOpen fileName w = (fileNo, w1)"
    using assms(1,5) by (simp add: w1_def fileOpen_def log_def Let_def)
  have pos: "0 < fileNo" using assms(5) by simp
  have h1: "handles w1 fileNo = Some (tokens content)"
    using assms(1,5) by (simp add: w1_def fileOpen_def log_def Let_def)
  have c1: "calls w1 = calls w @ [FileOpen fileName]"
    using fileOpen_frame [OF op] by simp
  have k: "k = min (length xs) (nat (maxNumbers - 0))" using assms(3) by simp
  have len: "nat 0 + k \<le> length numbers" using assms(4) by simp
  note lp = read_loop_reads [OF h1 assms(2) order_refl k len]
  define w2 where "w2 = w1\<lparr>handles := (handles w1)(fileNo \<mapsto> drop k (tokens content)),
        calls := calls w1 @ concat (replicate k [FileEOF fileNo, FileReadInt fileNo]) @ [FileEOF fileNo]\<rparr>"
  have lp': "read_loop fileNo numbers 0 maxNumbers w1 = (Inr (int k), take k xs @ drop k numbers, w2)"
    using lp by (simp add: w2_def)
  obtain c w3 where cl: "fileClose fileNo w2 = (c, w3)" by (cases "fileClose fileNo w2")
  have "handles w2 fileNo \<noteq> None" by (simp add: w2_def)
  with fileClose_frame [OF cl] have c: "c = Inr ()" and c3: "calls w3 = calls w2 @ [FileClose fileNo]"
    by simp_all
  have rn: "readNumbers fileName numbers maxNumbers w = (Inr (int k), take k xs @ drop k numbers, w3)"
    using readNumbers_opened [OF op pos lp' cl] c by simp
  show "fst (readNumbers fileName numbers maxNumbers w) = Inr (int k)" using rn by simp
  show "fst (snd (readNumbers fileName numbers maxNumbers w)) = take k xs @ drop k numbers"
    using rn by simp
  show "calls (snd (snd (readNumbers fileName numbers maxNumbers w))) =
           calls w @ [FileOpen fileName] @ concat (replicate k [FileEOF fileNo, FileReadInt fileNo])
             @ [FileEOF fileNo, FileClose fileNo]"
    using rn c3 c1 by (simp add: w2_def)
qed

text \<open>
  With the empty buffer, which is the one the main program passes, a capacity above zero
  and a file that holds anything at all, \<^verbatim>\<open>readNumbers\<close> raises: the first read
  raises, or else the first store does.
\<close>

lemma readNumbers_empty_buffer:
  assumes "files w fileName = Some content" and "tokens content = t # ts" and "0 < maxNumbers"
  shows "fst (readNumbers fileName [] maxNumbers w) = Inl (Exception None)"
proof -
  note fo = fileOpen_found [OF assms(1)]
  have h: "handles (snd (fileOpen fileName w)) (fst (fileOpen fileName w)) = Some (t # ts)"
    using fo(3) assms(2) by simp
  have "\<exists>e. fst (read_loop (fst (fileOpen fileName w)) [] 0 maxNumbers (snd (fileOpen fileName w))) = Inl e"
    using h assms(3)
    by (subst read_loop.simps)
       (simp add: fileEOF_def fileReadInt_def log_def Let_def setitem_Nil split: option.splits)
  then obtain e
    where e: "fst (read_loop (fst (fileOpen fileName w)) [] 0 maxNumbers (snd (fileOpen fileName w))) = Inl e"
    by blast
  from readNumbers_loop_raised [OF fo(1,2) e] show ?thesis by simp
qed

lemma tokens_sevens: "tokens_from [] (concat (replicate n ''7 '')) = replicate n ''7''"
  by (induction n) (simp_all add: is_space_def)

text \<open>
  C4 (the claim: for a file of more than \<open>maxNumbers\<close> integers \<^verbatim>\<open>readNumbers\<close>
  returns exactly \<open>maxNumbers\<close> and reads no further token, and the count returned is
  between \<open>0\<close> and \<open>maxNumbers\<close>). At the call of the main program, with the empty
  buffer and the capacity 1000, on a file of 1001 integers: \<^verbatim>\<open>readNumbers\<close> returns
  no count, it raises \<^verbatim>\<open>Exception()\<close>, since the first store into the empty list
  raises IndexError.
\<close>

theorem readNumbers_over_capacity_empty_buffer:
  "map parse_int (tokens (concat (replicate 1001 ''7 ''))) = replicate 1001 (Some 7)
   \<and> fst (readNumbers ''many.txt'' [] 1000 (booted [''many.txt'' \<mapsto> concat (replicate 1001 ''7 '')]))
       = Inl (Exception None)"
proof -
  have t: "tokens (concat (replicate 1001 ''7 '')) = replicate 1001 ''7''"
    by (simp only: tokens_def tokens_sevens)
  have p: "parse_int ''7'' = Some 7" by (simp add: parse_defs)
  have r: "replicate 1001 ''7'' = ''7'' # replicate 1000 ''7''"
    by (simp only: replicate_Suc [symmetric]) simp
  have f: "files (booted [''many.txt'' \<mapsto> concat (replicate 1001 ''7 '')]) ''many.txt''
             = Some (concat (replicate 1001 ''7 ''))"
    by (simp add: booted_def)
  have "fst (readNumbers ''many.txt'' [] 1000 (booted [''many.txt'' \<mapsto> concat (replicate 1001 ''7 '')]))
       = Inl (Exception None)"
    by (rule readNumbers_empty_buffer [OF f t [unfolded r]]) simp
  moreover have "map parse_int (tokens (concat (replicate 1001 ''7 ''))) = replicate 1001 (Some 7)"
    by (simp only: t map_replicate p)
  ultimately show ?thesis by simp
qed

subsection \<open>The main program\<close>

lemma sum_and_average_zero:
  "sum_and_average fl vals 0 w = (Inl ZeroDivisionError, print [S ''sum = '', F (Finite 0)] w)"
  by (simp add: sum_and_average_def range1_def truediv_def)

lemma readNumbers_Nil:
  assumes "fst (readNumbers fileName [] maxNumbers w) = Inr count"
  shows "count = 0"
proof -
  obtain h w1 where op: "fileOpen fileName w = (h, w1)" by (cases "fileOpen fileName w")
  have pos: "0 < h"
    using readNumbers_not_opened [of fileName w "[]" maxNumbers] assms op by (cases "0 < h") auto
  obtain r1 numbers1 w2 where lp: "read_loop h [] 0 maxNumbers w1 = (r1, numbers1, w2)"
    by (cases "read_loop h [] 0 maxNumbers w1")
  obtain c w3 where cl: "fileClose h w2 = (c, w3)" by (cases "fileClose h w2")
  from readNumbers_opened [OF op pos lp cl] assms have "r1 = Inr count"
    by (simp split: sum.splits)
  with read_loop_Nil [of h 0 maxNumbers w1 count numbers1 w2] lp show ?thesis by simp
qed

lemma main_block_zero:
  "main_block fl file_name w =
     (case fst (readNumbers file_name [] 1000 w) of
        Inl failure \<Rightarrow>
          (Inl ZeroDivisionError,
           print [S ''sum = '', F (Finite 0)]
             (print [S (str failure)] (snd (snd (readNumbers file_name [] 1000 w)))))
      | Inr n \<Rightarrow>
          (Inl ZeroDivisionError,
           print [S ''sum = '', F (Finite 0)] (snd (snd (readNumbers file_name [] 1000 w)))))"
proof (cases "readNumbers file_name [] 1000 w")
  case (fields r vals w1)
  show ?thesis
  proof (cases r)
    case (Inl failure)
    with fields show ?thesis by (simp add: main_block_def sum_and_average_zero)
  next
    case (Inr n)
    with fields readNumbers_Nil [of file_name 1000 w n] have "n = 0" by simp
    with Inr fields show ?thesis by (simp add: main_block_def sum_and_average_zero)
  qed
qed

text \<open>
  C3: the main program computes the average as the sum divided by the count of numbers
  read, with no guard for a count of zero; in every run in which zero numbers were read,
  computing the average is a division by zero. For every float arithmetic: with the count
  \<open>0\<close> the last statements print the sum 0.0 and raise ZeroDivisionError; where the
  summation loop ends with the sum \<open>sumv\<close>, they print the sum and then either raise
  ZeroDivisionError, when the count is \<open>0\<close>, or divide \<open>sumv\<close> by the count with the
  float division and print the quotient, or raise what that division raises. A run of the
  program in which \<^verbatim>\<open>readNumbers\<close> returns \<open>0\<close> or raises ends with
  ZeroDivisionError.
\<close>

theorem average_divides_by_count:
  "sum_and_average fl vals 0 w = (Inl ZeroDivisionError, print [S ''sum = '', F (Finite 0)] w)
   \<and> (sum_loop fl vals (range1 0 (nValues - 1 + 1)) (Finite 0) = Inr sumv \<longrightarrow>
      sum_and_average fl vals nValues w =
        (if nValues = 0 then (Inl ZeroDivisionError, print [S ''sum = '', F sumv] w)
         else case fdiv fl sumv nValues of
                Inl e \<Rightarrow> (Inl e, print [S ''sum = '', F sumv] w)
              | Inr average \<Rightarrow>
                  (Inr (), print [S ''average = '', F average] (print [S ''sum = '', F sumv] w))))
   \<and> ((case fst (readNumbers answer [] 1000 (snd (input ''Name/path of the number file'' answer w0))) of
         Inl failure \<Rightarrow> True
       | Inr n \<Rightarrow> n = 0)
      \<longrightarrow> fst (main fl answer w0) = Inl ZeroDivisionError)"
proof (intro conjI impI)
  show "sum_and_average fl vals 0 w = (Inl ZeroDivisionError, print [S ''sum = '', F (Finite 0)] w)"
    by (rule sum_and_average_zero)
next
  assume "sum_loop fl vals (range1 0 (nValues - 1 + 1)) (Finite 0) = Inr sumv"
  then show "sum_and_average fl vals nValues w =
        (if nValues = 0 then (Inl ZeroDivisionError, print [S ''sum = '', F sumv] w)
         else case fdiv fl sumv nValues of
                Inl e \<Rightarrow> (Inl e, print [S ''sum = '', F sumv] w)
              | Inr average \<Rightarrow>
                  (Inr (), print [S ''average = '', F average] (print [S ''sum = '', F sumv] w)))"
    by (simp add: sum_and_average_def truediv_def Let_def split: sum.splits)
next
  show "fst (main fl answer w0) = Inl ZeroDivisionError"
    by (simp add: main_def input_def main_block_zero split: sum.splits)
qed

theorem average_divides_by_count_witness:
  "sum_loop exact [] (range1 0 (0 - 1 + 1)) (Finite 0) = Inr (Finite 0)
   \<and> fst (readNumbers ''empty.txt'' [] 1000
        (snd (input ''Name/path of the number file'' ''empty.txt'' (booted [''empty.txt'' \<mapsto> []]))))
       = Inr 0
   \<and> fst (sum_and_average exact [] 0 (booted Map.empty)) = Inl ZeroDivisionError
   \<and> fst (main exact ''empty.txt'' (booted [''empty.txt'' \<mapsto> []])) = Inl ZeroDivisionError"
proof -
  have s: "sum_loop exact [] (range1 0 (0 - 1 + 1)) (Finite 0) = Inr (Finite 0)"
    by (simp add: range1_def)
  have r: "fst (readNumbers ''empty.txt'' [] 1000
        (snd (input ''Name/path of the number file'' ''empty.txt'' (booted [''empty.txt'' \<mapsto> []]))))
       = Inr 0"
    by (simp add: readNumbers_def read_loop.simps input_def booted_def api_defs parse_defs)
  from average_divides_by_count [of exact "[]" "booted Map.empty" 0 "Finite 0" "''empty.txt''"
      "booted [''empty.txt'' \<mapsto> []]"] s r
  show ?thesis by simp
qed

text \<open>
  C9: the guard of the main program on the file handle indicator is vacuous. The variable
  \<^verbatim>\<open>fileNo\<close> is the constant 1000 when the guard tests it, so for every answer of the
  user and every world the main program is the prompt followed by the guarded block, and
  the block's line with the sum is written in every run.
\<close>

theorem main_guard_vacuous:
  "main fl answer w = main_block fl answer (snd (input ''Name/path of the number file'' answer w))
   \<and> stdout (snd (main fl answer w)) \<noteq> []
   \<and> last (stdout (snd (main fl answer w))) = Line [S ''sum = '', F (Finite 0)]"
  by (simp add: main_def input_def main_block_zero print_def split: sum.splits)

text \<open>
  C10: if \<^verbatim>\<open>readNumbers\<close> raises, the count \<^verbatim>\<open>nValues\<close> of the main program keeps
  the value \<open>0\<close> it had before the call, so the summation loop runs over an empty range
  and the sum printed is 0.0, before the average is attempted. The program prints the
  text of the failure and the line \<^verbatim>\<open>sum = 0.0\<close>, and ends with the
  ZeroDivisionError of the average.
\<close>

theorem main_after_failure:
  assumes "fst (readNumbers answer [] 1000 (snd (input ''Name/path of the number file'' answer w)))
             = Inl failure"
  shows "main fl answer w =
           (Inl ZeroDivisionError,
            print [S ''sum = '', F (Finite 0)] (print [S (str failure)]
              (snd (snd (readNumbers answer [] 1000
                 (snd (input ''Name/path of the number file'' answer w)))))))
     \<and> range1 0 (0 - 1 + 1) = []"
  using assms by (simp add: main_def input_def main_block_zero range1_def)

theorem main_after_failure_witness:
  "fst (readNumbers ''words.txt'' [] 1000
      (snd (input ''Name/path of the number file'' ''words.txt'' (booted [''words.txt'' \<mapsto> ''one two'']))))
     = Inl (Exception None)
   \<and> fst (main exact ''words.txt'' (booted [''words.txt'' \<mapsto> ''one two''])) = Inl ZeroDivisionError
   \<and> stdout (snd (main exact ''words.txt'' (booted [''words.txt'' \<mapsto> ''one two''])))
       = [Prompt ''Name/path of the number file'', Line [S []], Line [S ''sum = '', F (Finite 0)]]"
proof -
  have r: "fst (readNumbers ''words.txt'' [] 1000
      (snd (input ''Name/path of the number file'' ''words.txt'' (booted [''words.txt'' \<mapsto> ''one two'']))))
     = Inl (Exception None)"
    by (simp add: readNumbers_def read_loop.simps input_def booted_def api_defs parse_defs)
  have s: "stdout (snd (snd (readNumbers ''words.txt'' [] 1000
      (snd (input ''Name/path of the number file'' ''words.txt'' (booted [''words.txt'' \<mapsto> ''one two'']))))))
     = [Prompt ''Name/path of the number file'']"
    by (simp add: readNumbers_def read_loop.simps input_def booted_def api_defs parse_defs)
  from main_after_failure [OF r, of exact] r s show ?thesis by (simp add: print_def)
qed

end
